theory Spec2Isabelle
  imports
    Main
    "HOL-Library.Word"
    "HOL-Library.Sublist"
    "HOL-Library.Char_ord"
    "HOL-Library.List_Lexorder"
begin

unbundle bit_operations_syntax

section \<open>Shared data model\<close>

text \<open>
  Strings are byte lists (\<^typ>\<open>string\<close>); a character outside ASCII is written as its
  UTF-8 bytes. A JavaScript value that may be \<open>null\<close> or \<open>undefined\<close> is an
  \<^typ>\<open>'a option\<close>.

  An entry of \<open>depends_on\<close>, \<open>blocked_by\<close> or \<open>dependents\<close>, as built in
  \<open>src/lib/beads.js\<close> from a \<open>LEFT JOIN\<close>: title, status and priority are \<open>null\<close>
  when the referenced issue does not exist.
\<close>

record dep_ref =
  ref_id :: string
  ref_type :: string
  ref_title :: "string option"
  ref_status :: "string option"
  ref_priority :: "int option"

record comment =
  comment_id :: int
  comment_author :: string
  comment_text :: string
  comment_created_at :: string

text \<open>
  A task object: the columns of an \<open>issues\<close> row together with the properties that
  \<open>getTasks\<close> and \<open>getTaskById\<close> attach to it. A property that the object does not
  carry is \<open>None\<close>. The dashboard receives these objects as its \<open>Task\<close> values;
  \<open>dependencyUtils.ts\<close> reads their \<open>id\<close>, \<open>assignee\<close>, \<open>depends_on\<close> and
  \<open>blocked_by\<close>.
\<close>

record task =
  task_id :: string
  title :: string
  status :: string
  priority :: int
  created_at :: string
  assignee :: "string option"
  project :: string
  project_path :: string
  labels :: "string list"
  depends_on :: "dep_ref list option"
  blocked_by :: "dep_ref list option"
  dependents :: "dep_ref list option"
  comments :: "comment list option"

text \<open>The decimal rendering of a number inside a template literal.\<close>

fun string_of_nat :: "nat \<Rightarrow> string" where
  "string_of_nat n =
     (if n < 10 then [''0123456789'' ! n]
      else string_of_nat (n div 10) @ [''0123456789'' ! (n mod 10)])"

declare string_of_nat.simps [simp del]

text \<open>\<open>xs || []\<close> for an array that may be missing.\<close>

definition or_empty :: "'a list option \<Rightarrow> 'a list" where
  "or_empty xs = (case xs of None \<Rightarrow> [] | Some ys \<Rightarrow> ys)"

section \<open>Dependency analysis (dashboard/src/lib/utils/dependencyUtils.ts)\<close>

record DependencyStatus =
  hasBlockers :: bool
  hasBlockedTasks :: bool
  blockerCount :: nat
  blockedCount :: nat
  unresolvedBlockers :: "dep_ref list"
  blockedTasks :: "dep_ref list"
  canBeAssigned :: bool
  blockingReason :: "string option"

definition analyzeDependencies :: "task \<Rightarrow> DependencyStatus" where
  "analyzeDependencies t =
     (let unresolved = filter (\<lambda>dep. ref_status dep \<noteq> Some ''closed'') (or_empty (depends_on t));
          blocked = or_empty (blocked_by t);
          hasB = (length unresolved > 0);
          canBe = (\<not> hasB);
          reason = (if hasB
                    then Some (''Blocked by '' @ string_of_nat (length unresolved) @ '' unresolved ''
                               @ (if length unresolved = 1 then ''task'' else ''tasks''))
                    else None)
      in \<lparr> hasBlockers = hasB,
           hasBlockedTasks = (length blocked > 0),
           blockerCount = length unresolved,
           blockedCount = length blocked,
           unresolvedBlockers = unresolved,
           blockedTasks = blocked,
           canBeAssigned = canBe,
           blockingReason = reason \<rparr>)"

record badge =
  badge_show :: bool
  badge_text :: string
  badge_color :: string
  badge_icon :: string
  badge_tooltip :: string

text \<open>The two icons, as UTF-8: U+1F6AB, and U+26A0 followed by U+FE0F.\<close>

definition icon_blocked :: string where
  "icon_blocked = [CHR 0xF0, CHR 0x9F, CHR 0x9A, CHR 0xAB]"

definition icon_warning :: string where
  "icon_warning = [CHR 0xE2, CHR 0x9A, CHR 0xA0, CHR 0xEF, CHR 0xB8, CHR 0x8F]"

definition getDependencyBadge :: "DependencyStatus \<Rightarrow> badge" where
  "getDependencyBadge depStatus =
     (if hasBlockers depStatus then
        \<lparr> badge_show = True,
          badge_text = icon_blocked @ '' '' @ string_of_nat (blockerCount depStatus),
          badge_color = ''badge-error'',
          badge_icon = icon_blocked,
          badge_tooltip = ''Blocked by '' @ string_of_nat (blockerCount depStatus) @ '' ''
                          @ (if blockerCount depStatus = 1 then ''task'' else ''tasks'') \<rparr>
      else if hasBlockedTasks depStatus then
        \<lparr> badge_show = True,
          badge_text = icon_warning @ '' '' @ string_of_nat (blockedCount depStatus),
          badge_color = ''badge-warning'',
          badge_icon = icon_warning,
          badge_tooltip = ''Blocking '' @ string_of_nat (blockedCount depStatus) @ '' ''
                          @ (if blockedCount depStatus = 1 then ''task'' else ''tasks'') \<rparr>
      else
        \<lparr> badge_show = False, badge_text = '''', badge_color = '''', badge_icon = '''',
          badge_tooltip = '''' \<rparr>)"

definition getAgentForTask :: "string \<Rightarrow> task list \<Rightarrow> string option" where
  "getAgentForTask taskId allTasks =
     (case find (\<lambda>t. task_id t = taskId) allTasks of
        None \<Rightarrow> None
      | Some t \<Rightarrow> (case assignee t of None \<Rightarrow> None
                  | Some a \<Rightarrow> if a = '''' then None else Some a))"

text \<open>
  \<open>buildDependencyChain\<close> recurses through \<open>forEach\<close> and shares one mutable
  \<open>visited\<close> set between all its calls. The model threads the set through and returns it
  with the chain. The first argument bounds the depth of the call stack: a call that
  would need a deeper stack yields \<open>None\<close>. \<open>chain_forEach\<close> is the body of
  \<open>task.depends_on.forEach\<close>, run over the remaining entries with the chain built so far.
\<close>

type_synonym chain = "(nat \<times> task) list"

fun buildDependencyChain ::
      "nat \<Rightarrow> task \<Rightarrow> task list \<Rightarrow> string set \<Rightarrow> (chain \<times> string set) option"
  and chain_forEach ::
      "nat \<Rightarrow> dep_ref list \<Rightarrow> task list \<Rightarrow> chain \<Rightarrow> string set \<Rightarrow> (chain \<times> string set) option"
where
  "buildDependencyChain 0 t allTasks visited = None"
| "buildDependencyChain (Suc n) t allTasks visited =
     (if task_id t \<in> visited then Some ([], visited)
      else chain_forEach n (or_empty (depends_on t)) allTasks [] (insert (task_id t) visited))"
| "chain_forEach n [] allTasks ch visited = Some (ch, visited)"
| "chain_forEach n (dep # deps) allTasks ch visited =
     (case find (\<lambda>t. task_id t = ref_id dep) allTasks of
        None \<Rightarrow> chain_forEach n deps allTasks ch visited
      | Some blockerTask \<Rightarrow>
          (case buildDependencyChain n blockerTask allTasks visited of
             None \<Rightarrow> None
           | Some (subChain, visited') \<Rightarrow>
               chain_forEach n deps allTasks
                 (ch @ [(1, blockerTask)] @ map (\<lambda>(level, item). (level + 1, item)) subChain)
                 visited'))"

section \<open>Project colours (dashboard, project colour utilities)\<close>

definition projectColorPalette :: "string list" where
  "projectColorPalette =
     [''#3b82f6'', ''#8b5cf6'', ''#ec4899'', ''#f59e0b'',
      ''#10b981'', ''#06b6d4'', ''#f97316'', ''#6366f1'',
      ''#14b8a6'', ''#a855f7'', ''#84cc16'', ''#22d3ee'',
      ''#fb923c'', ''#4ade80'', ''#c084fc'', ''#fb7185'']"

text \<open>\<open>s.split(sep)\<close> for a one-character separator: never the empty array.\<close>

fun split_str :: "char \<Rightarrow> string \<Rightarrow> string list" where
  "split_str sep [] = [[]]"
| "split_str sep (c # cs) =
     (if c = sep then [] # split_str sep cs
      else (case split_str sep cs of
              [] \<Rightarrow> [[c]]
            | w # ws \<Rightarrow> (c # w) # ws))"

text \<open>
  \<open>hash << 5\<close>: the operand is taken modulo \<open>2^32\<close>, shifted within 32 bits, and the
  result read as a signed 32-bit integer. The surrounding subtraction and addition are
  those of JavaScript numbers, which are exact on integers below \<open>2^53\<close> in absolute
  value; the model computes them in \<^typ>\<open>int\<close>.
\<close>

definition shl5 :: "int \<Rightarrow> int" where
  "shl5 h = sint (push_bit 5 (word_of_int h :: 32 word))"

definition hash_step :: "int \<Rightarrow> char \<Rightarrow> int" where
  "hash_step h c = int (of_char c) + (shl5 h - h)"

definition getProjectColor :: "string \<Rightarrow> string" where
  "getProjectColor taskId =
     (if taskId = [] then ''#6b7280''
      else let projectPrefix = hd (split_str CHR ''-'' taskId);
               h = foldl hash_step 0 projectPrefix;
               index = nat \<bar>h\<bar> mod length projectColorPalette
           in projectColorPalette ! index)"

section \<open>The task store (lib/beads.js)\<close>

text \<open>
  One SQLite database per project, with the four tables that the queries read.
  \<open>getTasks\<close> and \<open>getTaskById\<close> each wrap their work on a project in
  \<open>try\<close>/\<open>catch\<close> and go on to the next project when a query throws.
  \<open>proj_db\<close> is \<open>None\<close> for a database that cannot be opened, or that lacks one of
  the tables \<open>issues\<close>, \<open>labels\<close> and \<open>dependencies\<close>: both functions read these
  three before they keep anything from the project, so both skip it. The table
  \<open>comments\<close> is read by \<open>getTaskById\<close> alone; \<open>comments_tbl\<close> is \<open>None\<close> when
  that query throws. The list of projects is what \<open>getProjects\<close> returns from its scan
  of the file system.
\<close>

record issue =
  row_id :: string
  row_title :: string
  row_status :: string
  row_priority :: int
  row_created_at :: string
  row_assignee :: "string option"

record dependency =
  dep_issue_id :: string
  dep_depends_on_id :: string
  dep_type :: string

record label_row =
  label_issue_id :: string
  label_text :: string

record comment_row =
  crow_issue_id :: string
  crow_comment :: comment

record database =
  issues :: "issue list"
  dependencies :: "dependency list"
  labels_tbl :: "label_row list"
  comments_tbl :: "comment_row list option"

record project_entry =
  proj_name :: string
  proj_path :: string
  proj_dbPath :: string
  proj_db :: "database option"

record options =
  opt_status :: "string option"
  opt_priority :: "int option"
  opt_projectName :: "string option"

text \<open>
  Sorting with a comparison: a stable insertion sort, which is what \<open>ORDER BY\<close> and
  \<open>Array.prototype.sort\<close> compute for a consistent comparison. \<open>le a b\<close> says that
  \<open>a\<close> may stay in front of \<open>b\<close>. For a comparison that is not consistent the
  language leaves the order to the engine; the model keeps the insertion sort, under
  which elements that compare as equal keep their places.
\<close>

fun insert_by :: "('a \<Rightarrow> 'a \<Rightarrow> bool) \<Rightarrow> 'a \<Rightarrow> 'a list \<Rightarrow> 'a list" where
  "insert_by le x [] = [x]"
| "insert_by le x (y # ys) = (if le x y then x # y # ys else y # insert_by le x ys)"

definition sort_by :: "('a \<Rightarrow> 'a \<Rightarrow> bool) \<Rightarrow> 'a list \<Rightarrow> 'a list" where
  "sort_by le xs = foldr (insert_by le) xs []"

text \<open>\<open>ORDER BY i.priority ASC, i.created_at DESC\<close>, on the stored column values.\<close>

definition order_by_priority_created :: "issue list \<Rightarrow> issue list" where
  "order_by_priority_created rows =
     sort_by (\<lambda>a b. row_priority a < row_priority b \<or>
                     (row_priority a = row_priority b \<and> row_created_at b \<le> row_created_at a))
             rows"

text \<open>
  The comparison function of \<open>allTasks.sort\<close>. \<open>date_ms\<close> stands for
  \<open>new Date(created_at)\<close> read as a number (milliseconds); it is \<open>None\<close> for a
  \<open>created_at\<close> that is not a date, where the number is \<open>NaN\<close>. A difference with
  \<open>NaN\<close> is \<open>NaN\<close>, here \<open>None\<close>.
\<close>

definition compare_tasks :: "(string \<Rightarrow> int option) \<Rightarrow> task \<Rightarrow> task \<Rightarrow> int option" where
  "compare_tasks date_ms a b =
     (if priority a \<noteq> priority b then Some (priority a - priority b)
      else (case (date_ms (created_at b), date_ms (created_at a)) of
              (Some db, Some da) \<Rightarrow> Some (db - da)
            | _ \<Rightarrow> None))"

text \<open>\<open>Array.prototype.sort\<close> takes a comparison result \<open>NaN\<close> as zero.\<close>

definition js_sort :: "('a \<Rightarrow> 'a \<Rightarrow> int option) \<Rightarrow> 'a list \<Rightarrow> 'a list" where
  "js_sort cmp xs = sort_by (\<lambda>a b. case cmp a b of None \<Rightarrow> True | Some v \<Rightarrow> v \<le> 0) xs"

text \<open>
  \<open>(SELECT GROUP_CONCAT(label, ',') FROM labels WHERE issue_id = i.id)\<close>: \<open>NULL\<close> when
  the issue has no label.
\<close>

fun join_with :: "string \<Rightarrow> string list \<Rightarrow> string" where
  "join_with sep [] = []"
| "join_with sep [x] = x"
| "join_with sep (x # y # ys) = x @ sep @ join_with sep (y # ys)"

definition group_concat_labels :: "database \<Rightarrow> string \<Rightarrow> string option" where
  "group_concat_labels db i =
     (case map label_text (filter (\<lambda>l. label_issue_id l = i) (labels_tbl db)) of
        [] \<Rightarrow> None
      | ls \<Rightarrow> Some (join_with '','' ls))"

text \<open>\<open>task.labels ? task.labels.split(',').filter(Boolean) : []\<close>\<close>

definition parse_labels :: "string option \<Rightarrow> string list" where
  "parse_labels ls =
     (case ls of
        None \<Rightarrow> []
      | Some s \<Rightarrow> if s = [] then [] else filter (\<lambda>w. w \<noteq> []) (split_str CHR '','' s))"

text \<open>
  The two \<open>LEFT JOIN\<close> queries. A dependency row whose other end matches no issue
  yields one entry with \<open>NULL\<close> title, status and priority.
\<close>

definition joined_ref :: "database \<Rightarrow> string \<Rightarrow> string \<Rightarrow> dep_ref list" where
  "joined_ref db other ty =
     (case filter (\<lambda>i. row_id i = other) (issues db) of
        [] \<Rightarrow> [\<lparr> ref_id = other, ref_type = ty, ref_title = None, ref_status = None,
                 ref_priority = None \<rparr>]
      | rows \<Rightarrow> map (\<lambda>i. \<lparr> ref_id = other, ref_type = ty, ref_title = Some (row_title i),
                            ref_status = Some (row_status i),
                            ref_priority = Some (row_priority i) \<rparr>) rows)"

definition select_dependencies :: "database \<Rightarrow> string \<Rightarrow> dep_ref list" where
  "select_dependencies db i =
     concat (map (\<lambda>d. joined_ref db (dep_depends_on_id d) (dep_type d))
                 (filter (\<lambda>d. dep_issue_id d = i) (dependencies db)))"

definition select_dependents :: "database \<Rightarrow> string \<Rightarrow> dep_ref list" where
  "select_dependents db i =
     concat (map (\<lambda>d. joined_ref db (dep_issue_id d) (dep_type d))
                 (filter (\<lambda>d. dep_depends_on_id d = i) (dependencies db)))"

text \<open>\<open>SELECT ... FROM comments WHERE issue_id = ? ORDER BY created_at ASC\<close>\<close>

definition select_comments :: "database \<Rightarrow> string \<Rightarrow> comment list option" where
  "select_comments db i =
     (case comments_tbl db of
        None \<Rightarrow> None
      | Some rows \<Rightarrow>
          Some (sort_by (\<lambda>a b. comment_created_at a \<le> comment_created_at b)
                        (map crow_comment (filter (\<lambda>c. crow_issue_id c = i) rows))))"

text \<open>The object that the loop body of \<open>getTasks\<close> builds from one row.\<close>

definition listed_task :: "project_entry \<Rightarrow> database \<Rightarrow> issue \<Rightarrow> task" where
  "listed_task p db i =
     \<lparr> task_id = row_id i, title = row_title i, status = row_status i,
       priority = row_priority i, created_at = row_created_at i, assignee = row_assignee i,
       project = proj_name p, project_path = proj_path p,
       labels = parse_labels (group_concat_labels db (row_id i)),
       depends_on = Some (select_dependencies db (row_id i)),
       blocked_by = Some (select_dependents db (row_id i)),
       dependents = None,
       comments = None \<rparr>"

definition project_tasks :: "options \<Rightarrow> project_entry \<Rightarrow> task list" where
  "project_tasks opts p =
     (case proj_db p of
        None \<Rightarrow> []
      | Some db \<Rightarrow>
          map (listed_task p db)
            (order_by_priority_created
               (filter (\<lambda>i. (case opt_status opts of None \<Rightarrow> True | Some s \<Rightarrow> row_status i = s) \<and>
                             (case opt_priority opts of None \<Rightarrow> True | Some q \<Rightarrow> row_priority i = q))
                       (issues db))))"

definition getTasks :: "(string \<Rightarrow> int option) \<Rightarrow> options \<Rightarrow> project_entry list \<Rightarrow> task list" where
  "getTasks date_ms opts projects =
     (let named = (case opt_projectName opts of None \<Rightarrow> False | Some n \<Rightarrow> n \<noteq> []) in
      if named \<and> filter (\<lambda>p. Some (proj_name p) = opt_projectName opts) projects = [] then []
      else js_sort (compare_tasks date_ms)
             (concat (map (project_tasks opts)
                (filter (\<lambda>p. \<not> (named \<and> Some (proj_name p) \<noteq> opt_projectName opts)) projects))))"

text \<open>The object that \<open>getTaskById\<close> builds from the row it found and its comments.\<close>

definition detailed_task :: "project_entry \<Rightarrow> database \<Rightarrow> issue \<Rightarrow> comment list \<Rightarrow> task" where
  "detailed_task p db i cs =
     \<lparr> task_id = row_id i, title = row_title i, status = row_status i,
       priority = row_priority i, created_at = row_created_at i, assignee = row_assignee i,
       project = proj_name p, project_path = proj_path p,
       labels = parse_labels (group_concat_labels db (row_id i)),
       depends_on = Some (select_dependencies db (row_id i)),
       blocked_by = None,
       dependents = Some (select_dependents db (row_id i)),
       comments = Some cs \<rparr>"

fun getTaskById :: "project_entry list \<Rightarrow> string \<Rightarrow> task option" where
  "getTaskById [] taskId = None"
| "getTaskById (p # projects) taskId =
     (case proj_db p of
        None \<Rightarrow> getTaskById projects taskId
      | Some db \<Rightarrow>
          (case find (\<lambda>i. row_id i = taskId) (issues db) of
             None \<Rightarrow> getTaskById projects taskId
           | Some i \<Rightarrow>
               (case select_comments db taskId of
                  None \<Rightarrow> getTaskById projects taskId
                | Some cs \<Rightarrow> Some (detailed_task p db i cs))))"

text \<open>The body of the loop of \<open>getReadyTasks\<close>: the list after one more task.\<close>

definition ready_step :: "project_entry list \<Rightarrow> task list \<Rightarrow> task \<Rightarrow> task list" where
  "ready_step projects readyTasks t =
     (case getTaskById projects (task_id t) of
        None \<Rightarrow> readyTasks @ [t]
      | Some fullTask \<Rightarrow>
          (case depends_on fullTask of
             None \<Rightarrow> readyTasks @ [t]
           | Some deps \<Rightarrow>
               if list_ex (\<lambda>dep. ref_status dep \<noteq> Some ''closed'') deps then readyTasks
               else readyTasks @ [fullTask]))"

definition getReadyTasks :: "(string \<Rightarrow> int option) \<Rightarrow> project_entry list \<Rightarrow> task list" where
  "getReadyTasks date_ms projects =
     foldl (ready_step projects) []
       (getTasks date_ms \<lparr> opt_status = Some ''open'', opt_priority = None,
                           opt_projectName = None \<rparr> projects)"

section \<open>Task detail route (GET handler)\<close>




section \<open>Task assignment route (POST handler of /api/agents)\<close>
















section \<open>Properties stated by the specification\<close>

text \<open>Ascending by priority, then by identifier; an unknown priority compares as \<open>None\<close>.\<close>

definition by_priority_then_id :: "dep_ref \<Rightarrow> dep_ref \<Rightarrow> bool" where
  "by_priority_then_id a b =
     (case (ref_priority a, ref_priority b) of
        (Some p, Some q) \<Rightarrow> p < q \<or> (p = q \<and> ref_id a \<le> ref_id b)
      | (None, None) \<Rightarrow> ref_id a \<le> ref_id b
      | (None, Some q) \<Rightarrow> False
      | (Some p, None) \<Rightarrow> True)"

text \<open>
  The order that \<open>getTasks\<close> documents: priority ascending, newest first within one.
  Two tasks of one priority are in order when the second was not created after the
  first; where one of them has no readable creation time nothing is asked of the pair.
\<close>

definition priority_then_newest :: "(string \<Rightarrow> int option) \<Rightarrow> task \<Rightarrow> task \<Rightarrow> bool" where
  "priority_then_newest date_ms a b =
     (priority a < priority b \<or>
      (priority a = priority b \<and>
       (case (date_ms (created_at a), date_ms (created_at b)) of
          (Some da, Some db) \<Rightarrow> db \<le> da
        | _ \<Rightarrow> True)))"

text \<open>The \<open>created_at\<close> values of all rows of the readable databases.\<close>

definition stored_dates :: "project_entry list \<Rightarrow> string list" where
  "stored_dates projects =
     concat (map (\<lambda>p. case proj_db p of None \<Rightarrow> []
                       | Some db \<Rightarrow> map row_created_at (issues db)) projects)"

text \<open>The number of tasks of the list whose identifier is not yet in the visited set.\<close>

definition unvisited :: "task list \<Rightarrow> string set \<Rightarrow> nat" where
  "unvisited allTasks visited = card (task_id ` set allTasks - visited)"

text \<open>
  All identifiers stored in the databases that \<open>getTaskById\<close> can read, comments
  included, project by project.
\<close>

definition stored_ids :: "project_entry list \<Rightarrow> string list" where
  "stored_ids projects =
     concat (map (\<lambda>p. case proj_db p of
                         None \<Rightarrow> []
                       | Some db \<Rightarrow> (case comments_tbl db of
                                      None \<Rightarrow> []
                                    | Some rows \<Rightarrow> map row_id (issues db))) projects)"

text \<open>The part of an identifier in front of its first hyphen.\<close>

definition project_prefix :: "string \<Rightarrow> string" where
  "project_prefix taskId = takeWhile (\<lambda>c. c \<noteq> CHR ''-'') taskId"

text \<open>Every task of the readable databases, as \<open>getTaskById\<close> builds it.\<close>

definition stored_tasks :: "project_entry list \<Rightarrow> task list" where
  "stored_tasks projects =
     concat (map (\<lambda>p. case proj_db p of
                         None \<Rightarrow> []
                       | Some db \<Rightarrow>
                           concat (map (\<lambda>i. case select_comments db (row_id i) of
                                               None \<Rightarrow> []
                                             | Some cs \<Rightarrow> [detailed_task p db i cs])
                                       (issues db))) projects)"

section \<open>Example data\<close>

definition example_task :: "string \<Rightarrow> dep_ref list option \<Rightarrow> dep_ref list option \<Rightarrow> task" where
  "example_task i deps blocked =
     \<lparr> task_id = i, title = ''Example'', status = ''open'', priority = 1,
       created_at = ''2025-11-21 10:00:00'', assignee = None, project = ''jat'',
       project_path = ''/home/dev/code/jat'', labels = [], depends_on = deps,
       blocked_by = blocked, dependents = None, comments = None \<rparr>"

definition example_ref :: "string \<Rightarrow> string \<Rightarrow> int \<Rightarrow> dep_ref" where
  "example_ref i st p =
     \<lparr> ref_id = i, ref_type = ''blocks'', ref_title = Some ''Other'', ref_status = Some st,
       ref_priority = Some p \<rparr>"

text \<open>Two tasks that depend on each other.\<close>

definition cycle_a :: task where
  "cycle_a = example_task ''jat-aaa'' (Some [example_ref ''jat-bbb'' ''open'' 1]) None"

definition cycle_b :: task where
  "cycle_b = example_task ''jat-bbb'' (Some [example_ref ''jat-aaa'' ''open'' 1]) None"

text \<open>
  A store of one project with three issues: \<open>jat-bbb\<close> depends on the closed
  \<open>jat-aaa\<close>, and \<open>jat-ccc\<close> on the open \<open>jat-bbb\<close>. A second project has a
  database that cannot be read.
\<close>

definition example_issue :: "string \<Rightarrow> string \<Rightarrow> int \<Rightarrow> string \<Rightarrow> issue" where
  "example_issue i st p created =
     \<lparr> row_id = i, row_title = ''Issue'', row_status = st, row_priority = p,
       row_created_at = created, row_assignee = None \<rparr>"

definition example_db :: database where
  "example_db =
     \<lparr> issues = [example_issue ''jat-aaa'' ''closed'' 1 ''2025-11-20T10:00:00Z'',
                 example_issue ''jat-ccc'' ''open'' 2 ''2025-11-21T10:00:00Z'',
                 example_issue ''jat-bbb'' ''open'' 0 ''2025-11-22T10:00:00Z''],
       dependencies = [\<lparr> dep_issue_id = ''jat-bbb'', dep_depends_on_id = ''jat-aaa'',
                         dep_type = ''blocks'' \<rparr>,
                       \<lparr> dep_issue_id = ''jat-ccc'', dep_depends_on_id = ''jat-bbb'',
                         dep_type = ''blocks'' \<rparr>],
       labels_tbl = [\<lparr> label_issue_id = ''jat-bbb'', label_text = ''dashboard'' \<rparr>],
       comments_tbl = Some [] \<rparr>"

definition example_projects :: "project_entry list" where
  "example_projects =
     [\<lparr> proj_name = ''broken'', proj_path = ''/home/dev/code/broken'',
        proj_dbPath = ''/home/dev/code/broken/.beads/beads.db'', proj_db = None \<rparr>,
      \<lparr> proj_name = ''jat'', proj_path = ''/home/dev/code/jat'',
        proj_dbPath = ''/home/dev/code/jat/.beads/beads.db'', proj_db = Some example_db \<rparr>]"

text \<open>
  The three dates of the example store in milliseconds, as \<open>new Date\<close> reads them;
  the other strings used below are no dates.
\<close>

definition example_date_ms :: "string \<Rightarrow> int option" where
  "example_date_ms s =
     (if s = ''2025-11-20T10:00:00Z'' then Some 1763632800000
      else if s = ''2025-11-21T10:00:00Z'' then Some 1763719200000
      else if s = ''2025-11-22T10:00:00Z'' then Some 1763805600000
      else None)"

text \<open>
  Two checkouts of one project, each with its own database: the issue \<open>jat-aaa\<close> is
  closed in the first and still open in the second.
\<close>

definition copy_projects :: "project_entry list" where
  "copy_projects =
     [\<lparr> proj_name = ''jat'', proj_path = ''/home/dev/code/jat'',
        proj_dbPath = ''/home/dev/code/jat/.beads/beads.db'',
        proj_db = Some \<lparr> issues = [example_issue ''jat-aaa'' ''closed'' 1 ''2025-11-20T10:00:00Z''],
                         dependencies = [], labels_tbl = [], comments_tbl = Some [] \<rparr> \<rparr>,
      \<lparr> proj_name = ''jat-old'', proj_path = ''/home/dev/code/jat-old'',
        proj_dbPath = ''/home/dev/code/jat-old/.beads/beads.db'',
        proj_db = Some \<lparr> issues = [example_issue ''jat-aaa'' ''open'' 1 ''2025-11-20T10:00:00Z''],
                         dependencies = [], labels_tbl = [], comments_tbl = Some [] \<rparr> \<rparr>]"

text \<open>
  Two projects with three tasks of one priority: the oldest in the first project; in the
  second one whose \<open>created_at\<close> is \<open>yesterday\<close>, which is not a date, and the
  newest.
\<close>

definition bad_date_projects :: "project_entry list" where
  "bad_date_projects =
     [\<lparr> proj_name = ''jat'', proj_path = ''/home/dev/code/jat'',
        proj_dbPath = ''/home/dev/code/jat/.beads/beads.db'',
        proj_db = Some \<lparr> issues = [example_issue ''jat-old'' ''open'' 1 ''2025-11-20T10:00:00Z''],
                         dependencies = [], labels_tbl = [], comments_tbl = Some [] \<rparr> \<rparr>,
      \<lparr> proj_name = ''web'', proj_path = ''/home/dev/code/web'',
        proj_dbPath = ''/home/dev/code/web/.beads/beads.db'',
        proj_db = Some \<lparr> issues = [example_issue ''web-bad'' ''open'' 1 ''yesterday'',
                                   example_issue ''web-new'' ''open'' 1 ''2025-11-22T10:00:00Z''],
                         dependencies = [], labels_tbl = [], comments_tbl = Some [] \<rparr> \<rparr>]"

text \<open>
  Two projects with valid dates: two tasks of priority 1, the older listed first, and
  one of priority 0.
\<close>

definition tie_projects :: "project_entry list" where
  "tie_projects =
     [\<lparr> proj_name = ''jat'', proj_path = ''/home/dev/code/jat'',
        proj_dbPath = ''/home/dev/code/jat/.beads/beads.db'',
        proj_db = Some \<lparr> issues = [example_issue ''jat-old'' ''open'' 1 ''2025-11-20T10:00:00Z''],
                         dependencies = [], labels_tbl = [], comments_tbl = Some [] \<rparr> \<rparr>,
      \<lparr> proj_name = ''web'', proj_path = ''/home/dev/code/web'',
        proj_dbPath = ''/home/dev/code/web/.beads/beads.db'',
        proj_db = Some \<lparr> issues = [example_issue ''web-new'' ''closed'' 1 ''2025-11-22T10:00:00Z'',
                                   example_issue ''web-top'' ''open'' 0 ''2025-11-21T10:00:00Z''],
                         dependencies = [], labels_tbl = [], comments_tbl = Some [] \<rparr> \<rparr>]"

text \<open>
  A store with unique identifiers and without the table \<open>comments\<close>: \<open>jat-bbb\<close>
  depends on the open \<open>jat-aaa\<close>.
\<close>

definition no_comments_projects :: "project_entry list" where
  "no_comments_projects =
     [\<lparr> proj_name = ''jat'', proj_path = ''/home/dev/code/jat'',
        proj_dbPath = ''/home/dev/code/jat/.beads/beads.db'',
        proj_db = Some \<lparr> issues = [example_issue ''jat-aaa'' ''open'' 1 ''2025-11-20T10:00:00Z'',
                                   example_issue ''jat-bbb'' ''open'' 2 ''2025-11-21T10:00:00Z''],
                         dependencies = [\<lparr> dep_issue_id = ''jat-bbb'',
                                           dep_depends_on_id = ''jat-aaa'',
                                           dep_type = ''blocks'' \<rparr>],
                         labels_tbl = [], comments_tbl = None \<rparr> \<rparr>]"




section \<open>Readiness, blockers and the badge\<close>

lemma or_empty_simps [simp]: "or_empty None = []" "or_empty (Some xs) = xs"
  by (simp_all add: or_empty_def)

lemma analyze_fields:
  "unresolvedBlockers (analyzeDependencies t) =
     filter (\<lambda>dep. ref_status dep \<noteq> Some ''closed'') (or_empty (depends_on t))"
  "blockedTasks (analyzeDependencies t) = or_empty (blocked_by t)"
  "hasBlockers (analyzeDependencies t) =
     (filter (\<lambda>dep. ref_status dep \<noteq> Some ''closed'') (or_empty (depends_on t)) \<noteq> [])"
  "hasBlockedTasks (analyzeDependencies t) = (or_empty (blocked_by t) \<noteq> [])"
  "blockerCount (analyzeDependencies t) =
     length (filter (\<lambda>dep. ref_status dep \<noteq> Some ''closed'') (or_empty (depends_on t)))"
  "blockedCount (analyzeDependencies t) = length (or_empty (blocked_by t))"
  "canBeAssigned (analyzeDependencies t) =
     (filter (\<lambda>dep. ref_status dep \<noteq> Some ''closed'') (or_empty (depends_on t)) = [])"
  by (simp_all add: analyzeDependencies_def Let_def)

text \<open>
  C1. \<open>analyzeDependencies\<close> reports a task assignable exactly when \<open>depends_on\<close> is
  missing, empty, or has only entries of status \<open>closed\<close>; \<open>unresolvedBlockers\<close> is
  exactly the entries of \<open>depends_on\<close> whose status is not \<open>closed\<close>, and it is
  non-empty whenever the task is not assignable.
\<close>

theorem analyzeDependencies_readiness:
  "(canBeAssigned (analyzeDependencies t) \<longleftrightarrow>
      depends_on t = None \<or> depends_on t = Some [] \<or>
      (\<exists>deps. depends_on t = Some deps \<and> (\<forall>dep \<in> set deps. ref_status dep = Some ''closed'')))
   \<and> unresolvedBlockers (analyzeDependencies t) =
       filter (\<lambda>dep. ref_status dep \<noteq> Some ''closed'') (or_empty (depends_on t))
   \<and> set (unresolvedBlockers (analyzeDependencies t)) =
       {dep \<in> set (or_empty (depends_on t)). ref_status dep \<noteq> Some ''closed''}
   \<and> (\<not> canBeAssigned (analyzeDependencies t) \<longrightarrow> unresolvedBlockers (analyzeDependencies t) \<noteq> [])"
  by (cases "depends_on t") (auto simp: analyze_fields filter_empty_conv)

text \<open>C1 at three tasks: no dependencies, one closed dependency, one closed and one open.\<close>

theorem analyzeDependencies_readiness_witness:
  "canBeAssigned (analyzeDependencies (example_task ''jat-abc'' None None))
   \<and> canBeAssigned (analyzeDependencies
        (example_task ''jat-abc'' (Some [example_ref ''jat-ccc'' ''closed'' 0]) None))
   \<and> \<not> canBeAssigned (analyzeDependencies
        (example_task ''jat-abc''
           (Some [example_ref ''jat-ccc'' ''closed'' 0, example_ref ''jat-aaa'' ''open'' 1]) None))
   \<and> unresolvedBlockers (analyzeDependencies
        (example_task ''jat-abc''
           (Some [example_ref ''jat-ccc'' ''closed'' 0, example_ref ''jat-aaa'' ''open'' 1]) None))
       = [example_ref ''jat-aaa'' ''open'' 1]"
  using analyzeDependencies_readiness [of "example_task ''jat-abc'' None None"]
    analyzeDependencies_readiness
      [of "example_task ''jat-abc'' (Some [example_ref ''jat-ccc'' ''closed'' 0]) None"]
    analyzeDependencies_readiness
      [of "example_task ''jat-abc''
             (Some [example_ref ''jat-ccc'' ''closed'' 0, example_ref ''jat-aaa'' ''open'' 1]) None"]
  by (simp add: example_task_def example_ref_def)

text \<open>
  C2, as stated, fails: \<open>analyzeDependencies\<close> does not sort. With the open dependencies
  \<open>jat-bbb\<close> (priority 2) and \<open>jat-aaa\<close> (priority 1), in this order, the blockers
  come back in this order, which is not ascending by priority.
\<close>

theorem blockers_unsorted_counterexample:
  "\<not> sorted_wrt by_priority_then_id
       (unresolvedBlockers (analyzeDependencies
          (example_task ''jat-abc''
             (Some [example_ref ''jat-bbb'' ''open'' 2, example_ref ''jat-aaa'' ''open'' 1]) None)))"
  by (simp add: analyze_fields example_task_def example_ref_def by_priority_then_id_def)

text \<open>
  C2, amended. The blockers keep the relative order that they have in \<open>depends_on\<close>
  (they are a subsequence of it); so they are sorted by priority and identifier whenever
  \<open>depends_on\<close> is.
\<close>

theorem blockers_keep_depends_on_order:
  "subseq (unresolvedBlockers (analyzeDependencies t)) (or_empty (depends_on t))
   \<and> (sorted_wrt by_priority_then_id (or_empty (depends_on t)) \<longrightarrow>
        sorted_wrt by_priority_then_id (unresolvedBlockers (analyzeDependencies t)))"
  by (simp add: analyze_fields sorted_wrt_filter)

text \<open>C2 amended, at a sorted \<open>depends_on\<close> with a closed entry in the middle.\<close>

theorem blockers_keep_depends_on_order_witness:
  "sorted_wrt by_priority_then_id
     [example_ref ''jat-aaa'' ''open'' 1, example_ref ''jat-ccc'' ''closed'' 1,
      example_ref ''jat-bbb'' ''open'' 2]
   \<and> unresolvedBlockers (analyzeDependencies (example_task ''jat-abc''
        (Some [example_ref ''jat-aaa'' ''open'' 1, example_ref ''jat-ccc'' ''closed'' 1,
               example_ref ''jat-bbb'' ''open'' 2]) None))
      = [example_ref ''jat-aaa'' ''open'' 1, example_ref ''jat-bbb'' ''open'' 2]
   \<and> sorted_wrt by_priority_then_id
       (unresolvedBlockers (analyzeDependencies (example_task ''jat-abc''
          (Some [example_ref ''jat-aaa'' ''open'' 1, example_ref ''jat-ccc'' ''closed'' 1,
                 example_ref ''jat-bbb'' ''open'' 2]) None)))"
  using blockers_keep_depends_on_order [of "example_task ''jat-abc''
        (Some [example_ref ''jat-aaa'' ''open'' 1, example_ref ''jat-ccc'' ''closed'' 1,
               example_ref ''jat-bbb'' ''open'' 2]) None"]
  by (simp add: analyze_fields example_task_def example_ref_def by_priority_then_id_def)

text \<open>
  C3, as stated, fails in its last part: \<open>hasBlockedTasks\<close> counts every entry of
  \<open>blocked_by\<close>, whatever its status. A task without blockers whose only dependent is
  closed has no open dependent, and yet its badge is shown, as a warning.
\<close>

theorem badge_closed_dependent_counterexample:
  "map ref_status (or_empty (blocked_by
          (example_task ''jat-abc'' (Some []) (Some [example_ref ''jat-ddd'' ''closed'' 1]))))
       = [Some ''closed'']
   \<and> \<not> hasBlockers (analyzeDependencies
          (example_task ''jat-abc'' (Some []) (Some [example_ref ''jat-ddd'' ''closed'' 1])))
   \<and> badge_show (getDependencyBadge (analyzeDependencies
          (example_task ''jat-abc'' (Some []) (Some [example_ref ''jat-ddd'' ''closed'' 1]))))
   \<and> badge_color (getDependencyBadge (analyzeDependencies
          (example_task ''jat-abc'' (Some []) (Some [example_ref ''jat-ddd'' ''closed'' 1]))))
       = ''badge-warning''"
  by (simp add: getDependencyBadge_def analyze_fields example_task_def example_ref_def)

text \<open>
  C3, amended. Assignment is prevented exactly when some entry of \<open>depends_on\<close> is not
  closed, whatever \<open>blocked_by\<close> holds. \<open>getDependencyBadge\<close> shows the error badge with
  the number of such entries for a task that has one; for a task with none and a
  non-empty \<open>blocked_by\<close> (entries of any status) it shows the warning badge with the
  length of \<open>blocked_by\<close>; otherwise it hides the badge.
\<close>

theorem assignment_and_badge:
  "(\<not> canBeAssigned (analyzeDependencies t) \<longleftrightarrow> hasBlockers (analyzeDependencies t))
   \<and> (hasBlockers (analyzeDependencies t) \<longleftrightarrow>
        (\<exists>dep \<in> set (or_empty (depends_on t)). ref_status dep \<noteq> Some ''closed''))
   \<and> canBeAssigned (analyzeDependencies (t\<lparr>blocked_by := b\<rparr>)) = canBeAssigned (analyzeDependencies t)
   \<and> (hasBlockers (analyzeDependencies t) \<longrightarrow>
        getDependencyBadge (analyzeDependencies t) =
          \<lparr> badge_show = True,
            badge_text = icon_blocked @ '' '' @ string_of_nat (blockerCount (analyzeDependencies t)),
            badge_color = ''badge-error'',
            badge_icon = icon_blocked,
            badge_tooltip = ''Blocked by '' @ string_of_nat (blockerCount (analyzeDependencies t))
              @ '' '' @ (if blockerCount (analyzeDependencies t) = 1 then ''task'' else ''tasks'') \<rparr>
        \<and> blockerCount (analyzeDependencies t) =
            length (filter (\<lambda>dep. ref_status dep \<noteq> Some ''closed'') (or_empty (depends_on t))))
   \<and> (\<not> hasBlockers (analyzeDependencies t) \<and> or_empty (blocked_by t) \<noteq> [] \<longrightarrow>
        getDependencyBadge (analyzeDependencies t) =
          \<lparr> badge_show = True,
            badge_text = icon_warning @ '' '' @ string_of_nat (blockedCount (analyzeDependencies t)),
            badge_color = ''badge-warning'',
            badge_icon = icon_warning,
            badge_tooltip = ''Blocking '' @ string_of_nat (blockedCount (analyzeDependencies t))
              @ '' '' @ (if blockedCount (analyzeDependencies t) = 1 then ''task'' else ''tasks'') \<rparr>
        \<and> blockedCount (analyzeDependencies t) = length (or_empty (blocked_by t)))
   \<and> (\<not> hasBlockers (analyzeDependencies t) \<and> or_empty (blocked_by t) = [] \<longrightarrow>
        \<not> badge_show (getDependencyBadge (analyzeDependencies t)))"
  by (simp add: getDependencyBadge_def analyze_fields filter_empty_conv)

text \<open>C3 amended, at a blocked task, at a task with two dependents, and at a task with none.\<close>

theorem assignment_and_badge_witness:
  "hasBlockers (analyzeDependencies (example_task ''jat-abc''
      (Some [example_ref ''jat-aaa'' ''open'' 1]) (Some [example_ref ''jat-ddd'' ''open'' 1])))
   \<and> badge_tooltip (getDependencyBadge (analyzeDependencies (example_task ''jat-abc''
      (Some [example_ref ''jat-aaa'' ''open'' 1]) (Some [example_ref ''jat-ddd'' ''open'' 1]))))
      = ''Blocked by 1 task''
   \<and> \<not> hasBlockers (analyzeDependencies (example_task ''jat-abc''
      (Some [example_ref ''jat-ccc'' ''closed'' 1])
      (Some [example_ref ''jat-ddd'' ''open'' 1, example_ref ''jat-eee'' ''closed'' 1])))
   \<and> badge_tooltip (getDependencyBadge (analyzeDependencies (example_task ''jat-abc''
      (Some [example_ref ''jat-ccc'' ''closed'' 1])
      (Some [example_ref ''jat-ddd'' ''open'' 1, example_ref ''jat-eee'' ''closed'' 1]))))
      = ''Blocking 2 tasks''
   \<and> \<not> badge_show (getDependencyBadge (analyzeDependencies (example_task ''jat-abc''
      (Some [example_ref ''jat-ccc'' ''closed'' 1]) None)))"
  using assignment_and_badge [of "example_task ''jat-abc''
      (Some [example_ref ''jat-aaa'' ''open'' 1]) (Some [example_ref ''jat-ddd'' ''open'' 1])"]
    assignment_and_badge [of "example_task ''jat-abc''
      (Some [example_ref ''jat-ccc'' ''closed'' 1])
      (Some [example_ref ''jat-ddd'' ''open'' 1, example_ref ''jat-eee'' ''closed'' 1])"]
    assignment_and_badge [of "example_task ''jat-abc''
      (Some [example_ref ''jat-ccc'' ''closed'' 1]) None"]
  by (simp add: analyze_fields example_task_def example_ref_def string_of_nat.simps)

section \<open>The dependency chain returns\<close>

lemma visited_grows:
  "buildDependencyChain n t allTasks visited = Some r \<Longrightarrow> visited \<subseteq> snd r"
  "chain_forEach n deps allTasks ch visited = Some r \<Longrightarrow> visited \<subseteq> snd r"
proof (induction n t allTasks visited and n deps allTasks ch visited arbitrary: r and r
       rule: buildDependencyChain_chain_forEach.induct)
  case (1 t allTasks visited)
  then show ?case by simp
next
  case (2 n t allTasks visited)
  then show ?case by (auto split: if_splits)
next
  case (3 n allTasks ch visited)
  then show ?case by auto
next
  case (4 n dep deps allTasks ch visited)
  show ?case
  proof (cases "find (\<lambda>t. task_id t = ref_id dep) allTasks")
    case None
    with 4 show ?thesis by simp
  next
    case (Some b)
    with "4.prems" obtain sub v' where
      sub: "buildDependencyChain n b allTasks visited = Some (sub, v')"
      and rest: "chain_forEach n deps allTasks
                 (ch @ [(1, b)] @ map (\<lambda>(level, item). (level + 1, item)) sub) v' = Some r"
      by (auto split: option.splits)
    from "4.IH"(2)[OF Some sub] have "visited \<subseteq> v'" by simp
    moreover from "4.IH"(3)[OF Some sub refl rest] have "v' \<subseteq> snd r" .
    ultimately show ?thesis by blast
  qed
qed

lemma unvisited_mono: "v \<subseteq> v' \<Longrightarrow> unvisited allTasks v' \<le> unvisited allTasks v"
  unfolding unvisited_def by (intro card_mono) auto

lemma unvisited_insert:
  "x \<in> task_id ` set allTasks \<Longrightarrow> x \<notin> v \<Longrightarrow> unvisited allTasks (insert x v) < unvisited allTasks v"
  unfolding unvisited_def by (intro psubset_card_mono) auto

lemma find_in_set: "find P xs = Some x \<Longrightarrow> x \<in> set xs"
  by (auto simp: find_Some_iff)

lemma forEach_returns:
  assumes step: "\<And>b v. b \<in> set allTasks \<Longrightarrow> unvisited allTasks v < n \<Longrightarrow>
                   \<exists>r. buildDependencyChain n b allTasks v = Some r"
  shows "unvisited allTasks visited < n \<Longrightarrow> \<exists>r. chain_forEach n deps allTasks ch visited = Some r"
proof (induction deps arbitrary: ch visited)
  case Nil
  then show ?case by simp
next
  case (Cons dep deps)
  show ?case
  proof (cases "find (\<lambda>t. task_id t = ref_id dep) allTasks")
    case None
    with Cons show ?thesis by simp
  next
    case (Some b)
    then have "b \<in> set allTasks" by (rule find_in_set)
    from step[OF this Cons.prems] obtain sub v' where
      sub: "buildDependencyChain n b allTasks visited = Some (sub, v')" by auto
    from visited_grows(1)[OF sub] have "visited \<subseteq> v'" by simp
    with Cons.prems have "unvisited allTasks v' < n"
      using unvisited_mono[of visited v' allTasks] by simp
    from Cons.IH[OF this] Some sub show ?thesis by simp
  qed
qed

lemma known_task_returns:
  "t \<in> set allTasks \<Longrightarrow> unvisited allTasks visited < n \<Longrightarrow>
     \<exists>r. buildDependencyChain n t allTasks visited = Some r"
proof (induction n arbitrary: t visited)
  case 0
  then show ?case by simp
next
  case (Suc n)
  show ?case
  proof (cases "task_id t \<in> visited")
    case True
    then show ?thesis by simp
  next
    case False
    with Suc.prems have "unvisited allTasks (insert (task_id t) visited) < n"
      using unvisited_insert[of "task_id t" allTasks visited] by simp
    then have "\<exists>r. chain_forEach n (or_empty (depends_on t)) allTasks []
                  (insert (task_id t) visited) = Some r"
      by (rule forEach_returns[rotated]) (rule Suc.IH)
    with False show ?thesis by simp
  qed
qed

lemma any_task_returns:
  assumes "unvisited allTasks visited + 2 \<le> n"
  shows "\<exists>r. buildDependencyChain n t allTasks visited = Some r"
proof -
  from assms obtain k where n: "n = Suc k" and k: "unvisited allTasks visited < k"
    by (cases n) auto
  show ?thesis
  proof (cases "task_id t \<in> visited")
    case True
    with n show ?thesis by simp
  next
    case False
    have "visited \<subseteq> insert (task_id t) visited" by blast
    from unvisited_mono[OF this] k
    have "unvisited allTasks (insert (task_id t) visited) < k" by (rule le_less_trans)
    then have "\<exists>r. chain_forEach k (or_empty (depends_on t)) allTasks []
                  (insert (task_id t) visited) = Some r"
      by (rule forEach_returns[rotated]) (rule known_task_returns)
    with False n show ?thesis by simp
  qed
qed

lemma unvisited_le_length: "unvisited allTasks visited \<le> length allTasks"
proof -
  have "unvisited allTasks visited \<le> card (task_id ` set allTasks)"
    unfolding unvisited_def by (intro card_mono) auto
  also have "\<dots> \<le> card (set allTasks)" by (rule card_image_le) simp
  also have "\<dots> \<le> length allTasks" by (rule card_length)
  finally show ?thesis .
qed

lemma more_stack:
  "buildDependencyChain n t allTasks visited = Some r \<Longrightarrow>
     buildDependencyChain (n + k) t allTasks visited = Some r"
  "chain_forEach n deps allTasks ch visited = Some r \<Longrightarrow>
     chain_forEach (n + k) deps allTasks ch visited = Some r"
proof (induction n t allTasks visited and n deps allTasks ch visited arbitrary: r and r
       rule: buildDependencyChain_chain_forEach.induct)
  case (1 t allTasks visited)
  then show ?case by simp
next
  case (2 n t allTasks visited)
  then show ?case by (auto split: if_splits)
next
  case (3 n allTasks ch visited)
  then show ?case by auto
next
  case (4 n dep deps allTasks ch visited)
  show ?case
  proof (cases "find (\<lambda>t. task_id t = ref_id dep) allTasks")
    case None
    with 4 show ?thesis by simp
  next
    case (Some b)
    with "4.prems" obtain sub v' where
      sub: "buildDependencyChain n b allTasks visited = Some (sub, v')"
      and rest: "chain_forEach n deps allTasks
                 (ch @ [(1, b)] @ map (\<lambda>(level, item). (level + 1, item)) sub) v' = Some r"
      by (auto split: option.splits)
    from "4.IH"(2)[OF Some sub] "4.IH"(3)[OF Some sub refl rest] Some
    show ?thesis by simp
  qed
qed

text \<open>
  C4. For every task, task list and visited set, \<open>buildDependencyChain\<close> returns a chain
  and the grown visited set, on every call stack of at least \<open>length allTasks + 2\<close>
  frames and with the same result on each; cycles among the dependency edges make no
  difference. A task whose identifier is already visited is not expanded, however deep
  in the recursion the call is: its chain is empty and the visited set is unchanged.
\<close>

theorem buildDependencyChain_returns:
  "\<exists>ch visited'.
     (\<forall>k. buildDependencyChain (length allTasks + 2 + k) t allTasks visited = Some (ch, visited'))
     \<and> visited \<subseteq> visited'
     \<and> (task_id t \<in> visited \<longrightarrow>
          ch = [] \<and> visited' = visited
          \<and> (\<forall>n. buildDependencyChain (Suc n) t allTasks visited = Some ([], visited)))"
proof -
  have "unvisited allTasks visited + 2 \<le> length allTasks + 2"
    using unvisited_le_length[of allTasks visited] by simp
  from any_task_returns[OF this, of t] obtain r where
    "buildDependencyChain (length allTasks + 2) t allTasks visited = Some r"
    by blast
  moreover obtain ch visited' where "r = (ch, visited')"
    by (cases r)
  ultimately have
    r: "buildDependencyChain (length allTasks + 2) t allTasks visited = Some (ch, visited')"
    by blast
  have "\<forall>k. buildDependencyChain (length allTasks + 2 + k) t allTasks visited = Some (ch, visited')"
    using more_stack(1)[OF r] by blast
  moreover from visited_grows(1)[OF r] have "visited \<subseteq> visited'" by simp
  moreover have "task_id t \<in> visited \<longrightarrow> ch = [] \<and> visited' = visited"
    using r by auto
  moreover have
    "task_id t \<in> visited \<longrightarrow> (\<forall>n. buildDependencyChain (Suc n) t allTasks visited = Some ([], visited))"
    by simp
  ultimately show ?thesis by blast
qed

text \<open>
  C4 on a cycle of two tasks: the chain is \<open>jat-bbb\<close> at level 1 and \<open>jat-aaa\<close> at
  level 2, where the traversal stops; started inside the visited set, it is empty.
\<close>

theorem buildDependencyChain_returns_witness:
  "buildDependencyChain 4 cycle_a [cycle_a, cycle_b] {} =
     Some ([(1, cycle_b), (2, cycle_a)], {''jat-bbb'', ''jat-aaa''})
   \<and> buildDependencyChain 4 cycle_a [cycle_a, cycle_b] {''jat-aaa''} = Some ([], {''jat-aaa''})"
  using buildDependencyChain_returns [of "[cycle_a, cycle_b]" cycle_a "{}"]
    buildDependencyChain_returns [of "[cycle_a, cycle_b]" cycle_a "{''jat-aaa''}"]
  by (simp add: cycle_a_def cycle_b_def example_task_def example_ref_def numeral_eq_Suc)

section \<open>Project colours depend on the prefix\<close>

lemma split_str_not_empty: "split_str sep s \<noteq> []"
  by (induction s) (auto split: list.splits)

lemma hd_split_str: "hd (split_str sep s) = takeWhile (\<lambda>c. c \<noteq> sep) s"
proof (induction s)
  case Nil
  then show ?case by simp
next
  case (Cons c cs)
  then show ?case
    using split_str_not_empty[of sep cs] by (cases "split_str sep cs") auto
qed

lemma palette_length: "length projectColorPalette = 16"
  by (simp add: projectColorPalette_def)

lemma color_of_prefix:
  "taskId \<noteq> [] \<Longrightarrow>
     getProjectColor taskId =
       projectColorPalette ! (nat \<bar>foldl hash_step 0 (project_prefix taskId)\<bar> mod 16)"
  by (simp add: getProjectColor_def Let_def hd_split_str project_prefix_def palette_length)

text \<open>The shift written out as wrap-around arithmetic on integers.\<close>

lemma shl5_int: "shl5 h = (h * 32 + 2147483648) mod 4294967296 - 2147483648"
proof -
  have "push_bit 5 (word_of_int h :: 32 word) = word_of_int (h * 32)"
    by (simp add: push_bit_eq_mult)
  then have "shl5 h = sint (word_of_int (h * 32) :: 32 word)"
    by (simp only: shl5_def)
  also have "\<dots> = (h * 32 + 2147483648) mod 4294967296 - 2147483648"
    unfolding int_word_sint by simp
  finally show ?thesis .
qed

text \<open>
  C10, as stated, fails at the empty identifier: its part in front of the first hyphen
  is empty, as is that of \<open>-abc\<close>, and yet the empty identifier is grey while
  \<open>-abc\<close> has the first colour of the palette.
\<close>

theorem getProjectColor_empty_counterexample:
  "project_prefix '''' = project_prefix ''-abc''
   \<and> getProjectColor '''' = ''#6b7280'' \<and> getProjectColor ''-abc'' = ''#3b82f6''"
  by (simp add: getProjectColor_def project_prefix_def projectColorPalette_def)

text \<open>
  C10, amended. Two non-empty identifiers with the same part in front of the first
  hyphen have the same colour; the colour of a non-empty identifier is one of the 16 of
  the palette; the colour of the empty identifier is \<open>#6b7280\<close>.
\<close>

theorem getProjectColor_by_prefix:
  "(a \<noteq> [] \<and> b \<noteq> [] \<and> project_prefix a = project_prefix b \<longrightarrow>
      getProjectColor a = getProjectColor b)
   \<and> (a \<noteq> [] \<longrightarrow> getProjectColor a \<in> set projectColorPalette)
   \<and> length projectColorPalette = 16
   \<and> getProjectColor [] = ''#6b7280''"
proof -
  have "getProjectColor a \<in> set projectColorPalette" if "a \<noteq> []"
    unfolding color_of_prefix[OF that]
    by (rule nth_mem) (simp add: palette_length)
  moreover have "getProjectColor [] = ''#6b7280''"
    by (simp add: getProjectColor_def)
  ultimately show ?thesis
    by (simp add: color_of_prefix palette_length)
qed

text \<open>C10 amended, at two identifiers of the project \<open>jat\<close>.\<close>

theorem getProjectColor_by_prefix_witness:
  "project_prefix ''jat-abc'' = project_prefix ''jat-x9z''
   \<and> getProjectColor ''jat-abc'' = ''#4ade80''
   \<and> getProjectColor ''jat-x9z'' = ''#4ade80''
   \<and> ''#4ade80'' \<in> set projectColorPalette"
  using getProjectColor_by_prefix [of "''jat-abc''" "''jat-x9z''"]
  by (simp add: getProjectColor_def projectColorPalette_def hash_step_def shl5_int
        project_prefix_def)

section \<open>Sorting\<close>

lemma set_insert_by: "set (insert_by le x xs) = insert x (set xs)"
  by (induction xs) auto

lemma sorted_insert_by:
  assumes total: "\<And>a b. a \<in> A \<Longrightarrow> b \<in> A \<Longrightarrow> le a b \<or> le b a"
    and trans: "\<And>a b c. a \<in> A \<Longrightarrow> b \<in> A \<Longrightarrow> c \<in> A \<Longrightarrow> le a b \<Longrightarrow> le b c \<Longrightarrow> le a c"
  shows "x \<in> A \<Longrightarrow> set xs \<subseteq> A \<Longrightarrow> sorted_wrt le xs \<Longrightarrow> sorted_wrt le (insert_by le x xs)"
proof (induction xs)
  case Nil
  then show ?case by simp
next
  case (Cons y ys)
  show ?case
  proof (cases "le x y")
    case True
    have "le x z" if "z \<in> set ys" for z
    proof -
      from Cons.prems that have "le y z" "z \<in> A" "y \<in> A" by auto
      with True Cons.prems(1) show ?thesis by (blast intro: trans)
    qed
    with True Cons.prems show ?thesis by simp
  next
    case False
    with total[of x y] Cons.prems have "le y x" by auto
    with Cons False show ?thesis by (auto simp: set_insert_by)
  qed
qed

lemma set_sort_by: "set (sort_by le xs) = set xs"
  unfolding sort_by_def by (induction xs) (simp_all add: set_insert_by)

lemma sorted_sort_by:
  assumes "\<And>a b. a \<in> A \<Longrightarrow> b \<in> A \<Longrightarrow> le a b \<or> le b a"
    and "\<And>a b c. a \<in> A \<Longrightarrow> b \<in> A \<Longrightarrow> c \<in> A \<Longrightarrow> le a b \<Longrightarrow> le b c \<Longrightarrow> le a c"
  shows "set xs \<subseteq> A \<Longrightarrow> sorted_wrt le (sort_by le xs)"
proof (induction xs)
  case Nil
  then show ?case by (simp add: sort_by_def)
next
  case (Cons x xs)
  then have "sorted_wrt le (sort_by le xs)" by simp
  moreover have "sort_by le (x # xs) = insert_by le x (sort_by le xs)"
    by (simp add: sort_by_def)
  ultimately show ?case
    using Cons.prems sorted_insert_by[of A le x "sort_by le xs", OF assms]
    by (simp add: set_sort_by)
qed

lemma compare_tasks_dated:
  "date_ms (created_at a) = Some da \<Longrightarrow> date_ms (created_at b) = Some db \<Longrightarrow>
     (case compare_tasks date_ms a b of None \<Rightarrow> True | Some v \<Rightarrow> v \<le> 0) =
       priority_then_newest date_ms a b"
  by (auto simp: compare_tasks_def priority_then_newest_def)

lemma sorted_js_sort_tasks:
  assumes "\<forall>t \<in> set xs. date_ms (created_at t) \<noteq> None"
  shows "sorted_wrt (priority_then_newest date_ms) (js_sort (compare_tasks date_ms) xs)"
proof -
  let ?le = "\<lambda>a b. case compare_tasks date_ms a b of None \<Rightarrow> True | Some v \<Rightarrow> v \<le> 0"
  let ?A = "{t. date_ms (created_at t) \<noteq> None}"
  have same: "?le a b = priority_then_newest date_ms a b" if "a \<in> ?A" "b \<in> ?A" for a b
    using that compare_tasks_dated[of date_ms a _ b] by auto
  have "sorted_wrt ?le (sort_by ?le xs)"
  proof (rule sorted_sort_by[of ?A])
    show "?le a b \<or> ?le b a" if "a \<in> ?A" "b \<in> ?A" for a b
      using that by (auto simp: same priority_then_newest_def)
    show "?le a c" if "a \<in> ?A" "b \<in> ?A" "c \<in> ?A" "?le a b" "?le b c" for a b c
      using that by (auto simp: same priority_then_newest_def)
    show "set xs \<subseteq> ?A" using assms by auto
  qed
  then have "sorted_wrt (priority_then_newest date_ms) (sort_by ?le xs)"
  proof (rule sorted_wrt_mono_rel[rotated])
    fix a b
    assume "a \<in> set (sort_by ?le xs)" "b \<in> set (sort_by ?le xs)" "?le a b"
    with assms show "priority_then_newest date_ms a b"
      using same[of a b] by (auto simp: set_sort_by)
  qed
  then show ?thesis by (simp add: js_sort_def)
qed

lemma project_tasks_dates:
  assumes "t \<in> set (project_tasks opts p)" "p \<in> set projects"
  shows "created_at t \<in> set (stored_dates projects)"
proof (cases "proj_db p")
  case None
  with assms(1) show ?thesis by (simp add: project_tasks_def)
next
  case (Some db)
  with assms(1) obtain i where i: "i \<in> set (issues db)" and t: "t = listed_task p db i"
    by (auto simp: project_tasks_def order_by_priority_created_def set_sort_by)
  from Some i have "row_created_at i \<in> set (case proj_db p of None \<Rightarrow> []
                       | Some db \<Rightarrow> map row_created_at (issues db))"
    by simp
  with assms(2) show ?thesis
    unfolding stored_dates_def t by (auto simp: listed_task_def)
qed

text \<open>
  C9, amended. When every \<open>created_at\<close> in the readable stores is a valid date, the
  list that \<open>getTasks\<close> returns is, whatever the query, sorted by priority, lowest
  number first, and within one priority by creation time, newest first.
\<close>

theorem getTasks_sorted:
  assumes "\<forall>s \<in> set (stored_dates projects). date_ms s \<noteq> None"
  shows "sorted_wrt (priority_then_newest date_ms) (getTasks date_ms opts projects)"
proof -
  have "\<forall>t \<in> set (concat (map (project_tasks opts) (filter P projects))).
          date_ms (created_at t) \<noteq> None" for P
    using assms project_tasks_dates[of _ opts _ projects] by auto
  then show ?thesis
    by (simp add: getTasks_def Let_def sorted_js_sort_tasks del: set_concat)
qed

lemmas store_defs =
  getTasks_def project_tasks_def listed_task_def detailed_task_def order_by_priority_created_def
  sort_by_def js_sort_def compare_tasks_def parse_labels_def group_concat_labels_def
  select_dependencies_def select_dependents_def select_comments_def joined_ref_def

lemmas example_defs =
  example_projects_def example_db_def example_issue_def example_date_ms_def

text \<open>
  C9, as stated, fails where a \<open>created_at\<close> is not a date: every comparison with that
  task is \<open>NaN\<close>, which the sort takes as equal. Of three tasks of priority 1 the
  oldest stays in front of the newest, with the undated task between them.
\<close>

theorem getTasks_bad_date_counterexample:
  "map task_id (getTasks example_date_ms
      \<lparr> opt_status = None, opt_priority = None, opt_projectName = None \<rparr> bad_date_projects)
     = [''jat-old'', ''web-bad'', ''web-new'']
   \<and> map priority (getTasks example_date_ms
      \<lparr> opt_status = None, opt_priority = None, opt_projectName = None \<rparr> bad_date_projects)
     = [1, 1, 1]
   \<and> map created_at (getTasks example_date_ms
      \<lparr> opt_status = None, opt_priority = None, opt_projectName = None \<rparr> bad_date_projects)
     = [''2025-11-20T10:00:00Z'', ''yesterday'', ''2025-11-22T10:00:00Z'']
   \<and> \<not> sorted_wrt (priority_then_newest example_date_ms) (getTasks example_date_ms
      \<lparr> opt_status = None, opt_priority = None, opt_projectName = None \<rparr> bad_date_projects)"
  by (simp add: bad_date_projects_def priority_then_newest_def store_defs example_defs)

text \<open>
  C9 amended, on two projects with valid dates: the tasks arrive as \<open>jat-old\<close>,
  \<open>web-top\<close>, \<open>web-new\<close>; the sort puts priority 0 first and, of the two tasks of
  priority 1, the newer \<open>web-new\<close> in front of \<open>jat-old\<close>.
\<close>

theorem getTasks_sorted_witness:
  "map example_date_ms (stored_dates tie_projects)
     = [Some 1763632800000, Some 1763805600000, Some 1763719200000]
   \<and> map task_id (concat (map (project_tasks
        \<lparr> opt_status = None, opt_priority = None, opt_projectName = None \<rparr>) tie_projects))
     = [''jat-old'', ''web-top'', ''web-new'']
   \<and> map task_id (getTasks example_date_ms
      \<lparr> opt_status = None, opt_priority = None, opt_projectName = None \<rparr> tie_projects)
     = [''web-top'', ''web-new'', ''jat-old'']
   \<and> map priority (getTasks example_date_ms
      \<lparr> opt_status = None, opt_priority = None, opt_projectName = None \<rparr> tie_projects)
     = [0, 1, 1]"
proof -
  have h: "\<forall>s \<in> set (stored_dates tie_projects). example_date_ms s \<noteq> None"
    by (simp add: stored_dates_def tie_projects_def example_defs)
  show ?thesis
    using getTasks_sorted [OF h,
      of "\<lparr> opt_status = None, opt_priority = None, opt_projectName = None \<rparr>"]
    by (simp add: stored_dates_def tie_projects_def store_defs example_defs)
qed

section \<open>Looking a task up\<close>








section \<open>Ready tasks\<close>

lemma ready_step_append: "ready_step ps acc t = acc @ ready_step ps [] t"
  by (simp add: ready_step_def split: option.splits)

lemma foldl_ready_step:
  "foldl (ready_step ps) acc ts = acc @ concat (map (ready_step ps []) ts)"
proof (induction ts arbitrary: acc)
  case Nil
  then show ?case by simp
next
  case (Cons t ts)
  have "foldl (ready_step ps) acc (t # ts) = foldl (ready_step ps) (ready_step ps acc t) ts"
    by simp
  also have "\<dots> = ready_step ps acc t @ concat (map (ready_step ps []) ts)"
    by (rule Cons.IH)
  also have "\<dots> = acc @ concat (map (ready_step ps []) (t # ts))"
    by (subst ready_step_append) simp
  finally show ?case .
qed

lemma set_project_tasks_open:
  "set (project_tasks \<lparr> opt_status = Some ''open'', opt_priority = None, opt_projectName = None \<rparr> p) =
     (case proj_db p of None \<Rightarrow> {}
      | Some db \<Rightarrow> listed_task p db ` {i \<in> set (issues db). row_status i = ''open''})"
  by (auto simp: project_tasks_def order_by_priority_created_def set_sort_by split: option.splits)

lemma set_getTasks_open:
  "set (getTasks date_ms \<lparr> opt_status = Some ''open'', opt_priority = None, opt_projectName = None \<rparr> ps) =
     (\<Union>p \<in> set ps. case proj_db p of None \<Rightarrow> {}
        | Some db \<Rightarrow> listed_task p db ` {i \<in> set (issues db). row_status i = ''open''})"
  by (simp add: getTasks_def js_sort_def set_sort_by set_project_tasks_open)

lemma find_distinct:
  "distinct (map f xs) \<Longrightarrow> x \<in> set xs \<Longrightarrow> find (\<lambda>y. f y = f x) xs = Some x"
  by (induction xs) (auto simp: image_iff)

lemma stored_ids_Cons:
  "stored_ids (p # ps) =
     (case proj_db p of None \<Rightarrow> []
      | Some db \<Rightarrow> (case comments_tbl db of None \<Rightarrow> [] | Some rows \<Rightarrow> map row_id (issues db)))
     @ stored_ids ps"
  by (simp add: stored_ids_def)

lemma stored_ids_member:
  assumes "p \<in> set ps" "proj_db p = Some db" "comments_tbl db = Some rows" "i \<in> set (issues db)"
  shows "row_id i \<in> set (stored_ids ps)"
proof -
  from assms(2-4) have "row_id i \<in> set (case proj_db p of None \<Rightarrow> []
      | Some db \<Rightarrow> (case comments_tbl db of None \<Rightarrow> [] | Some rows \<Rightarrow> map row_id (issues db)))"
    by simp
  with assms(1) show ?thesis unfolding stored_ids_def by auto
qed

lemma getTaskById_stored:
  "distinct (stored_ids ps) \<Longrightarrow> p \<in> set ps \<Longrightarrow> proj_db p = Some db \<Longrightarrow>
     select_comments db (row_id i) = Some cs \<Longrightarrow> i \<in> set (issues db) \<Longrightarrow>
     getTaskById ps (row_id i) = Some (detailed_task p db i cs)"
proof (induction ps)
  case Nil
  then show ?case by simp
next
  case (Cons q qs)
  from Cons.prems(4) obtain rows where rows: "comments_tbl db = Some rows"
    by (auto simp: select_comments_def split: option.splits)
  from Cons.prems(1) have dq: "distinct (stored_ids qs)"
    by (simp add: stored_ids_Cons)
  show ?case
  proof (cases "p = q")
    case True
    from Cons.prems(1,3) True rows have "distinct (map row_id (issues db))"
      by (simp add: stored_ids_Cons)
    from find_distinct[OF this Cons.prems(5)] True Cons.prems(3,4)
    show ?thesis by simp
  next
    case False
    with Cons.prems(2) have pq: "p \<in> set qs" by simp
    from stored_ids_member[OF pq Cons.prems(3) rows Cons.prems(5)]
    have mem: "row_id i \<in> set (stored_ids qs)" .
    have rest: "getTaskById qs (row_id i) = Some (detailed_task p db i cs)"
      by (rule Cons.IH[OF dq pq Cons.prems(3,4,5)])
    show ?thesis
    proof (cases "proj_db q")
      case None
      with rest show ?thesis by simp
    next
      case (Some dbq)
      show ?thesis
      proof (cases "comments_tbl dbq")
        case None
        then have "select_comments dbq (row_id i) = None"
          by (simp add: select_comments_def)
        with Some rest show ?thesis by (simp split: option.splits)
      next
        case (Some rowsq)
        with Cons.prems(1) mem \<open>proj_db q = Some dbq\<close>
        have "\<forall>j \<in> set (issues dbq). row_id j \<noteq> row_id i"
          by (auto simp: stored_ids_Cons)
        then have "find (\<lambda>j. row_id j = row_id i) (issues dbq) = None"
          by (simp add: find_None_iff)
        with \<open>proj_db q = Some dbq\<close> rest show ?thesis by simp
      qed
    qed
  qed
qed

lemma ready_step_listed:
  assumes "distinct (stored_ids ps)" "p \<in> set ps" "proj_db p = Some db"
    "select_comments db (row_id i) = Some cs" "i \<in> set (issues db)"
  shows "ready_step ps [] (listed_task p db i) =
           (if list_ex (\<lambda>dep. ref_status dep \<noteq> Some ''closed'') (select_dependencies db (row_id i))
            then [] else [detailed_task p db i cs])"
proof -
  have "task_id (listed_task p db i) = row_id i"
    by (simp add: listed_task_def)
  moreover have "depends_on (detailed_task p db i cs) = Some (select_dependencies db (row_id i))"
    by (simp add: detailed_task_def)
  ultimately show ?thesis
    using getTaskById_stored[OF assms] by (simp add: ready_step_def)
qed

lemma in_stored_tasks:
  "t \<in> set (stored_tasks ps) \<longleftrightarrow>
     (\<exists>p db i cs. p \<in> set ps \<and> proj_db p = Some db \<and> i \<in> set (issues db) \<and>
        select_comments db (row_id i) = Some cs \<and> t = detailed_task p db i cs)"
proof
  assume "t \<in> set (stored_tasks ps)"
  then obtain p where p: "p \<in> set ps"
    and t: "t \<in> set (case proj_db p of None \<Rightarrow> []
              | Some db \<Rightarrow> concat (map (\<lambda>i. case select_comments db (row_id i) of
                                               None \<Rightarrow> []
                                             | Some cs \<Rightarrow> [detailed_task p db i cs])
                                       (issues db)))"
    unfolding stored_tasks_def by auto
  from t obtain db where db: "proj_db p = Some db"
    by (cases "proj_db p") auto
  with t obtain i where i: "i \<in> set (issues db)"
    and ti: "t \<in> set (case select_comments db (row_id i) of
                        None \<Rightarrow> [] | Some cs \<Rightarrow> [detailed_task p db i cs])"
    by auto
  from ti obtain cs where "select_comments db (row_id i) = Some cs" "t = detailed_task p db i cs"
    by (cases "select_comments db (row_id i)") auto
  with p db i show "\<exists>p db i cs. p \<in> set ps \<and> proj_db p = Some db \<and> i \<in> set (issues db) \<and>
        select_comments db (row_id i) = Some cs \<and> t = detailed_task p db i cs"
    by blast
next
  assume "\<exists>p db i cs. p \<in> set ps \<and> proj_db p = Some db \<and> i \<in> set (issues db) \<and>
        select_comments db (row_id i) = Some cs \<and> t = detailed_task p db i cs"
  then obtain p db i cs where p: "p \<in> set ps" and db: "proj_db p = Some db"
    and i: "i \<in> set (issues db)" and cs: "select_comments db (row_id i) = Some cs"
    and t: "t = detailed_task p db i cs"
    by blast
  from i cs t have "t \<in> set (concat (map (\<lambda>i. case select_comments db (row_id i) of
                                               None \<Rightarrow> []
                                             | Some cs \<Rightarrow> [detailed_task p db i cs])
                                       (issues db)))"
    by (auto intro!: bexI[of _ i])
  with db have "t \<in> set (case proj_db p of None \<Rightarrow> []
              | Some db \<Rightarrow> concat (map (\<lambda>i. case select_comments db (row_id i) of
                                               None \<Rightarrow> []
                                             | Some cs \<Rightarrow> [detailed_task p db i cs])
                                       (issues db)))"
    by simp
  with p show "t \<in> set (stored_tasks ps)"
    unfolding stored_tasks_def by auto
qed

lemma detailed_task_fields:
  "status (detailed_task p db i cs) = row_status i"
  "or_empty (depends_on (detailed_task p db i cs)) = select_dependencies db (row_id i)"
  by (simp_all add: detailed_task_def or_empty_def)

text \<open>
  On stores where every database has its table of comments and no identifier is stored
  twice, the second read of each listed task finds that very task, and the result is
  exactly the open tasks whose dependencies are all closed.
\<close>

lemma getReadyTasks_sound_stores:
  assumes d: "distinct (stored_ids projects)"
    and c: "\<forall>p \<in> set projects. \<forall>db. proj_db p = Some db \<longrightarrow> comments_tbl db \<noteq> None"
  shows "t \<in> set (getReadyTasks date_ms projects) \<longleftrightarrow>
           t \<in> set (stored_tasks projects) \<and> status t = ''open'' \<and>
           (\<forall>dep \<in> set (or_empty (depends_on t)). ref_status dep = Some ''closed'')"
proof
  assume "t \<in> set (getReadyTasks date_ms projects)"
  then obtain l where l: "l \<in> set (getTasks date_ms
        \<lparr> opt_status = Some ''open'', opt_priority = None, opt_projectName = None \<rparr> projects)"
    and t: "t \<in> set (ready_step projects [] l)"
    by (auto simp: getReadyTasks_def foldl_ready_step)
  from l obtain p db i where p: "p \<in> set projects" "proj_db p = Some db"
    and i: "i \<in> set (issues db)" "row_status i = ''open''" and l': "l = listed_task p db i"
    by (auto simp: set_getTasks_open split: option.splits)
  from c p obtain rows where "comments_tbl db = Some rows"
    by auto
  then obtain cs where cs: "select_comments db (row_id i) = Some cs"
    by (simp add: select_comments_def)
  from t have "t = detailed_task p db i cs"
    and "\<not> list_ex (\<lambda>dep. ref_status dep \<noteq> Some ''closed'') (select_dependencies db (row_id i))"
    unfolding l' ready_step_listed[OF d p cs i(1)] by (auto split: if_splits)
  with p i cs show "t \<in> set (stored_tasks projects) \<and> status t = ''open'' \<and>
           (\<forall>dep \<in> set (or_empty (depends_on t)). ref_status dep = Some ''closed'')"
    by (auto simp: in_stored_tasks detailed_task_fields list_ex_iff)
next
  assume a: "t \<in> set (stored_tasks projects) \<and> status t = ''open'' \<and>
           (\<forall>dep \<in> set (or_empty (depends_on t)). ref_status dep = Some ''closed'')"
  then obtain p db i cs where p: "p \<in> set projects" "proj_db p = Some db"
    and i: "i \<in> set (issues db)" and cs: "select_comments db (row_id i) = Some cs"
    and t: "t = detailed_task p db i cs"
    by (auto simp: in_stored_tasks)
  from a t have op: "row_status i = ''open''"
    and "\<not> list_ex (\<lambda>dep. ref_status dep \<noteq> Some ''closed'') (select_dependencies db (row_id i))"
    by (auto simp: detailed_task_fields list_ex_iff)
  then have "t \<in> set (ready_step projects [] (listed_task p db i))"
    unfolding ready_step_listed[OF d p cs i] by (simp add: t)
  moreover from p i op have "listed_task p db i \<in> set (getTasks date_ms
        \<lparr> opt_status = Some ''open'', opt_priority = None, opt_projectName = None \<rparr> projects)"
    by (auto simp: set_getTasks_open intro!: bexI[of _ p])
  ultimately show "t \<in> set (getReadyTasks date_ms projects)"
    by (auto simp: getReadyTasks_def foldl_ready_step)
qed

text \<open>
  C7. The result of \<open>getReadyTasks\<close> should be exactly the open tasks whose
  dependencies are all closed; the code departs from this on two stores. It reads each
  open task again with \<open>getTaskById\<close>, by identifier alone, and takes the listed task
  unchecked when that returns nothing. With two checkouts of one project the result is
  the closed \<open>jat-aaa\<close> of the first checkout. With a database that lacks the table of
  comments, \<open>jat-bbb\<close> is returned although it depends on the open \<open>jat-aaa\<close>.
\<close>

theorem getReadyTasks_returns_unready:
  "map task_id (getReadyTasks example_date_ms copy_projects) = [''jat-aaa'']
   \<and> map status (getReadyTasks example_date_ms copy_projects) = [''closed'']
   \<and> map project (getReadyTasks example_date_ms copy_projects) = [''jat'']
   \<and> map task_id (getReadyTasks example_date_ms no_comments_projects) = [''jat-aaa'', ''jat-bbb'']
   \<and> map depends_on (getReadyTasks example_date_ms no_comments_projects) =
       [Some [],
        Some [\<lparr> ref_id = ''jat-aaa'', ref_type = ''blocks'', ref_title = Some ''Issue'',
                ref_status = Some ''open'', ref_priority = Some 1 \<rparr>]]"
  by (simp add: getReadyTasks_def ready_step_def copy_projects_def no_comments_projects_def
        store_defs example_defs)

end
